theory Spec2Isabelle
  imports Complex_Main
begin

section \<open>Humine: a shallow embedding of \<open>humine.py\<close> (class \<open>ChessLearner\<close>)\<close>

text \<open>
  The learner keeps per-position, per-move statistics in a dictionary, scores moves from
  those statistics, ranks tactical candidates, simulates games against an opponent engine
  and searches for a winning move. Python's floats are modelled by \<open>real\<close> (exact
  arithmetic, no rounding); Python's \<open>float('inf')\<close> for "no win yet" is \<open>None\<close> of
  an option; exceptions are values of \<open>py_error\<close> on the left of a sum.
\<close>

datatype py_error = ZeroDivisionError | UnboundLocalError | ValueError

subsection \<open>The statistics store\<close>

text \<open>
  \<open>tactical_info\<close> is the dictionary built by \<open>simulate_tactical_game\<close>; a capture is
  stored with the move's notation and the captured value.
\<close>

record tactical_info =
  captures_by_us :: "(string \<times> int) list"
  captures_by_opponent :: "(string \<times> int) list"
  material_balance_change :: int
  checks_given :: nat
  checks_received :: nat

text \<open>One element of \<open>move_data["results"]\<close>; the wall-clock timestamp is left out.\<close>

record result_entry =
  re_result :: string
  re_move_count :: nat
  re_tactical_info :: "tactical_info option"

text \<open>
  \<open>self.memory[position_key][move_uci]\<close>. The counters start at 0 and are only ever
  incremented, so they are naturals; the material sum is a signed integer.
\<close>

record move_data =
  san :: string
  results :: "result_entry list"
  wins :: nat
  draws :: nat
  losses :: nat
  min_moves_to_win :: "nat option"
  min_moves_to_draw :: "nat option"
  total_captures :: nat
  total_material_gained :: int

text \<open>
  A Python dictionary keeps its keys in insertion order, and the lookup of the best move
  iterates in that order: the bucket of one position is an association list. Assigning to
  an existing key keeps its place, a new key goes to the end.
\<close>

type_synonym bucket = "(string \<times> move_data) list"
type_synonym memory = "string \<rightharpoonup> bucket"

fun dict_set :: "'k \<Rightarrow> 'v \<Rightarrow> ('k \<times> 'v) list \<Rightarrow> ('k \<times> 'v) list" where
  "dict_set k v [] = [(k, v)]"
| "dict_set k v (p # ps) = (if fst p = k then (k, v) # ps else p # dict_set k v ps)"

definition new_move_data :: "string \<Rightarrow> move_data" where
  "new_move_data move_san =
     \<lparr>san = move_san, results = [], wins = 0, draws = 0, losses = 0,
      min_moves_to_win = None, min_moves_to_draw = None,
      total_captures = 0, total_material_gained = 0\<rparr>"

text \<open>\<open>min(old, move_count)\<close> where \<open>old\<close> may be \<open>float('inf')\<close>.\<close>

definition min_inf :: "nat option \<Rightarrow> nat \<Rightarrow> nat option" where
  "min_inf old n = (case old of None \<Rightarrow> Some n | Some k \<Rightarrow> Some (min k n))"

text \<open>
  \<open>record_move_result\<close>: the position key of the current board is a parameter; the
  \<open>tactical_info\<close> argument defaults to \<open>None\<close>. Saving to the file does not change the
  memory and is left out.
\<close>

definition add_tactical :: "tactical_info option \<Rightarrow> move_data \<Rightarrow> move_data" where
  "add_tactical ti d =
     (case ti of
        None \<Rightarrow> d
      | Some t \<Rightarrow> d\<lparr>total_captures := total_captures d + length (captures_by_us t),
                   total_material_gained := total_material_gained d + material_balance_change t\<rparr>)"

definition update_statistics :: "string \<Rightarrow> nat \<Rightarrow> move_data \<Rightarrow> move_data" where
  "update_statistics result move_count d =
     (if result = ''WIN'' then
        d\<lparr>wins := wins d + 1, min_moves_to_win := min_inf (min_moves_to_win d) move_count\<rparr>
      else if result = ''DRAW'' then
        d\<lparr>draws := draws d + 1, min_moves_to_draw := min_inf (min_moves_to_draw d) move_count\<rparr>
      else d\<lparr>losses := losses d + 1\<rparr>)"

definition get_bucket :: "memory \<Rightarrow> string \<Rightarrow> bucket" where
  "get_bucket mem position_key = (case mem position_key of None \<Rightarrow> [] | Some b \<Rightarrow> b)"

definition get_record :: "bucket \<Rightarrow> string \<Rightarrow> string \<Rightarrow> move_data" where
  "get_record b move_uci move_san =
     (case map_of b move_uci of None \<Rightarrow> new_move_data move_san | Some d \<Rightarrow> d)"

definition record_move_result ::
  "string \<Rightarrow> memory \<Rightarrow> string \<Rightarrow> string \<Rightarrow> string \<Rightarrow> nat \<Rightarrow> tactical_info option \<Rightarrow> memory" where
  "record_move_result position_key mem move_uci move_san result move_count ti =
     (let b = get_bucket mem position_key;
          d = get_record b move_uci move_san;
          entry = \<lparr>re_result = result, re_move_count = move_count, re_tactical_info = ti\<rparr>;
          d1 = add_tactical ti d;
          d2 = d1\<lparr>results := results d1 @ [entry]\<rparr>;
          d3 = update_statistics result move_count d2
      in mem(position_key \<mapsto> dict_set move_uci d3 b))"

text \<open>
  \<open>get_move_score\<close>. The division \<open>1000 / min_win_moves\<close> raises when the stored
  minimum is 0; the loss branch cannot divide by zero, as \<open>loss_rate\<close> is not negative.
\<close>

definition speed_bonus :: "nat option \<Rightarrow> py_error + real" where
  "speed_bonus m =
     (case m of
        None \<Rightarrow> Inr 0
      | Some k \<Rightarrow> if k = 0 then Inl ZeroDivisionError else Inr (1000 / real k))"

definition capture_bonus :: "move_data \<Rightarrow> real" where
  "capture_bonus d = real (total_captures d) * 10"

definition material_bonus :: "move_data \<Rightarrow> real" where
  "material_bonus d = real_of_int (total_material_gained d) / 10"

definition get_move_score :: "move_data \<Rightarrow> py_error + real" where
  "get_move_score d =
     (let total = wins d + draws d + losses d in
      if total = 0 then Inr 0
      else if wins d > 0 then
        (case speed_bonus (min_moves_to_win d) of
           Inl e \<Rightarrow> Inl e
         | Inr sb \<Rightarrow>
             Inr (10000 + sb + (real (wins d) / real total) * 500
                  + capture_bonus d + material_bonus d))
      else if draws d > 0 then
        (case speed_bonus (min_moves_to_draw d) of
           Inl e \<Rightarrow> Inl e
         | Inr sb \<Rightarrow>
             Inr (5000 + sb + (real (draws d) / real total) * 500
                  + capture_bonus d + material_bonus d))
      else
        (let loss_rate = real (losses d) / real total in
         Inr (100 / (1 + loss_rate * 10) + capture_bonus d + material_bonus d)))"

text \<open>
  \<open>get_best_move_from_memory\<close>: the loop over \<open>self.memory[position_key].items()\<close>
  with its two running variables \<open>best_move\<close> and \<open>best_score\<close>, the latter starting
  at \<open>-1\<close>.
\<close>

fun best_move_loop ::
  "bucket \<Rightarrow> (string \<times> string \<times> move_data) option \<Rightarrow> real
     \<Rightarrow> py_error + (string \<times> string \<times> move_data) option" where
  "best_move_loop [] best_move best_score = Inr best_move"
| "best_move_loop ((move_uci, d) # rest) best_move best_score =
     (case get_move_score d of
        Inl e \<Rightarrow> Inl e
      | Inr score \<Rightarrow>
          if score > best_score then best_move_loop rest (Some (move_uci, san d, d)) score
          else best_move_loop rest best_move best_score)"

definition get_best_move_from_memory ::
  "memory \<Rightarrow> string \<Rightarrow> py_error + (string \<times> string \<times> move_data) option" where
  "get_best_move_from_memory mem position_key =
     (case mem position_key of
        None \<Rightarrow> Inr None
      | Some b \<Rightarrow> if b = [] then Inr None else best_move_loop b None (- 1))"

definition should_retry_move :: "move_data \<Rightarrow> bool" where
  "should_retry_move d =
     (let total = wins d + draws d + losses d in
      if wins d > 0 \<or> draws d > 0 then True
      else if total < 3 then True
      else False)"

text \<open>A call of \<open>record_move_result\<close>, and the memory after a sequence of calls.\<close>

record recording =
  rc_key :: string
  rc_uci :: string
  rc_san :: string
  rc_result :: string
  rc_move_count :: nat
  rc_info :: "tactical_info option"

definition apply_recording :: "memory \<Rightarrow> recording \<Rightarrow> memory" where
  "apply_recording mem c =
     record_move_result (rc_key c) mem (rc_uci c) (rc_san c) (rc_result c)
       (rc_move_count c) (rc_info c)"

definition record_ok :: "move_data \<Rightarrow> bool" where
  "record_ok d = (wins d + draws d + losses d = length (results d))"

definition memory_inv :: "memory \<Rightarrow> bool" where
  "memory_inv mem = (\<forall>k b. mem k = Some b \<longrightarrow> (\<forall>p \<in> set b. record_ok (snd p)))"

subsection \<open>Concrete records and recordings\<close>

text \<open>
  A move that won its only trial in 50 plies, and a move that drew twenty trials at the
  depth cap with ten pawn captures and 2000 units of material won in each.
\<close>

definition quick_win :: move_data where
  "quick_win =
     \<lparr>san = ''Qh5'',
      results = [\<lparr>re_result = ''WIN'', re_move_count = 50,
                  re_tactical_info = Some \<lparr>captures_by_us = [], captures_by_opponent = [],
                    material_balance_change = 0, checks_given = 1, checks_received = 0\<rparr>\<rparr>],
      wins = 1, draws = 0, losses = 0, min_moves_to_win = Some 50, min_moves_to_draw = None,
      total_captures = 0, total_material_gained = 0\<rparr>"

definition draw_trial :: result_entry where
  "draw_trial =
     \<lparr>re_result = ''DRAW'', re_move_count = 200,
      re_tactical_info = Some \<lparr>captures_by_us = replicate 10 (''exd5'', 100),
        captures_by_opponent = [], material_balance_change = 2000,
        checks_given = 0, checks_received = 0\<rparr>\<rparr>"

definition busy_draw :: move_data where
  "busy_draw =
     \<lparr>san = ''Nf3'', results = replicate 20 draw_trial,
      wins = 0, draws = 20, losses = 0, min_moves_to_win = None, min_moves_to_draw = Some 200,
      total_captures = 200, total_material_gained = 40000\<rparr>"

definition plain_loss :: move_data where
  "plain_loss =
     \<lparr>san = ''a3'',
      results = [\<lparr>re_result = ''LOSS'', re_move_count = 40, re_tactical_info = None\<rparr>],
      wins = 0, draws = 0, losses = 1, min_moves_to_win = None, min_moves_to_draw = None,
      total_captures = 0, total_material_gained = 0\<rparr>"

text \<open>
  A move that lost its only trial in 24 plies, the learner a queen, a bishop and a pawn
  down at the end without a capture of its own; and a memory holding only that record.
\<close>

definition blunder :: move_data where
  "blunder =
     \<lparr>san = ''Qxb7'',
      results = [\<lparr>re_result = ''LOSS'', re_move_count = 24,
                  re_tactical_info = Some \<lparr>captures_by_us = [],
                    captures_by_opponent = [(''Rxb7'', 900), (''Bxf2+'', 100)],
                    material_balance_change = - 1200, checks_given = 0,
                    checks_received = 3\<rparr>\<rparr>],
      wins = 0, draws = 0, losses = 1, min_moves_to_win = None, min_moves_to_draw = None,
      total_captures = 0, total_material_gained = - 1200\<rparr>"

definition blunder_memory :: memory where
  "blunder_memory = [''K'' \<mapsto> [(''d1b7'', blunder)]]"

definition demo_info :: tactical_info where
  "demo_info = \<lparr>captures_by_us = [(''exd5'', 100)], captures_by_opponent = [],
                 material_balance_change = 100, checks_given = 1, checks_received = 0\<rparr>"

definition demo_calls :: "recording list" where
  "demo_calls =
     [\<lparr>rc_key = ''K'', rc_uci = ''e2e4'', rc_san = ''e4'', rc_result = ''DRAW'',
        rc_move_count = 200, rc_info = Some demo_info\<rparr>,
      \<lparr>rc_key = ''K'', rc_uci = ''e2e4'', rc_san = ''e4'', rc_result = ''LOSS'',
        rc_move_count = 31, rc_info = Some demo_info\<rparr>]"

subsection \<open>The rules engine\<close>

text \<open>
  The rules of chess come from the library \<open>python-chess\<close>, which is not part of the
  repository: the functions of \<open>chess.Board\<close> and \<open>chess.Move\<close> that the learner
  calls are the fields of a record, a parameter of everything below. A board is a value
  (\<open>board.copy()\<close> followed by \<open>push\<close> is \<open>push\<close> on the value); a colour is a
  \<open>bool\<close>, white being \<open>True\<close>; a square is a number from 0 (a1) to 63 (h8).
\<close>

datatype piece_type = PAWN | KNIGHT | BISHOP | ROOK | QUEEN | KING

record piece =
  piece_type :: piece_type
  color :: bool

record ('b, 'm) rules =
  fen :: "'b \<Rightarrow> string"
  turn :: "'b \<Rightarrow> bool"
  legal_moves :: "'b \<Rightarrow> 'm list"
  push :: "'b \<Rightarrow> 'm \<Rightarrow> 'b"
  pieces :: "'b \<Rightarrow> piece_type \<Rightarrow> bool \<Rightarrow> nat list"
  piece_at :: "'b \<Rightarrow> nat \<Rightarrow> piece option"
  king :: "'b \<Rightarrow> bool \<Rightarrow> nat option"
  attacks :: "'b \<Rightarrow> nat \<Rightarrow> nat list"
  is_attacked_by :: "'b \<Rightarrow> bool \<Rightarrow> nat \<Rightarrow> bool"
  is_capture :: "'b \<Rightarrow> 'm \<Rightarrow> bool"
  is_check :: "'b \<Rightarrow> bool"
  is_checkmate :: "'b \<Rightarrow> bool"
  is_stalemate :: "'b \<Rightarrow> bool"
  is_insufficient_material :: "'b \<Rightarrow> bool"
  is_fifty_moves :: "'b \<Rightarrow> bool"
  is_repetition :: "'b \<Rightarrow> bool"
  is_game_over :: "'b \<Rightarrow> bool"
  board_san :: "'b \<Rightarrow> 'm \<Rightarrow> string"
  uci :: "'m \<Rightarrow> string"
  from_uci :: "string \<Rightarrow> 'm option"
  from_square :: "'m \<Rightarrow> nat"
  to_square :: "'m \<Rightarrow> nat"

text \<open>\<open>chess.square_name\<close>: the file letter, then the rank digit.\<close>

definition square_name :: "nat \<Rightarrow> string" where
  "square_name sq = [''abcdefgh'' ! (sq mod 8), ''12345678'' ! (sq div 8)]"

subsection \<open>Tactical analysis\<close>

fun PIECE_VALUES :: "piece_type \<Rightarrow> int" where
  "PIECE_VALUES PAWN = 100"
| "PIECE_VALUES KNIGHT = 320"
| "PIECE_VALUES BISHOP = 330"
| "PIECE_VALUES ROOK = 500"
| "PIECE_VALUES QUEEN = 900"
| "PIECE_VALUES KING = 0"

definition get_material_count :: "('b, 'm) rules \<Rightarrow> 'b \<Rightarrow> bool \<Rightarrow> int" where
  "get_material_count R board c =
     (\<Sum>pt \<leftarrow> [PAWN, KNIGHT, BISHOP, ROOK, QUEEN].
        int (length (pieces R board pt c)) * PIECE_VALUES pt)"

definition get_material_balance :: "('b, 'm) rules \<Rightarrow> bool \<Rightarrow> 'b \<Rightarrow> int" where
  "get_material_balance R play_as_white board =
     (let our_color = play_as_white;
          opponent_color = \<not> our_color
      in get_material_count R board our_color - get_material_count R board opponent_color)"

definition is_capture_move :: "('b, 'm) rules \<Rightarrow> 'b \<Rightarrow> 'm \<Rightarrow> bool" where
  "is_capture_move R board m = is_capture R board m"

definition get_captured_piece_value :: "('b, 'm) rules \<Rightarrow> 'b \<Rightarrow> 'm \<Rightarrow> int" where
  "get_captured_piece_value R board m =
     (if \<not> is_capture R board m then 0
      else case piece_at R board (to_square R m) of
             None \<Rightarrow> PIECE_VALUES PAWN
           | Some captured_piece \<Rightarrow> PIECE_VALUES (piece_type captured_piece))"

definition is_king_in_check :: "('b, 'm) rules \<Rightarrow> 'b \<Rightarrow> bool" where
  "is_king_in_check R board = is_check R board"

record threat =
  th_piece :: piece_type
  th_square :: string
  th_target :: string

definition threat_of :: "('b, 'm) rules \<Rightarrow> bool \<Rightarrow> 'b \<Rightarrow> nat \<Rightarrow> nat \<Rightarrow> threat list" where
  "threat_of R our_color board our_king_square square =
     (case piece_at R board square of
        None \<Rightarrow> []
      | Some p \<Rightarrow>
          if color p \<noteq> our_color \<and> our_king_square \<in> set (attacks R board square)
          then [\<lparr>th_piece = piece_type p, th_square = square_name square,
                 th_target = square_name our_king_square\<rparr>]
          else [])"

definition detect_immediate_threats :: "('b, 'm) rules \<Rightarrow> bool \<Rightarrow> 'b \<Rightarrow> threat list" where
  "detect_immediate_threats R play_as_white board =
     (let our_color = play_as_white in
      case king R board our_color of
        None \<Rightarrow> []
      | Some our_king_square \<Rightarrow>
          concat (map (threat_of R our_color board our_king_square) [0..<64]))"

text \<open>
  An entry of the list of \<open>calculate_attack_sequences\<close>. The loop body appends, for one
  legal move, a checkmate entry and goes on to the next move, or else a check entry if the
  move gives check and then a capture entry if it captures something of positive value.
  The parameter \<open>depth\<close> and the local \<open>our_color\<close> of the source are not used by it.
\<close>

record 'm attack_sequence =
  moves :: "'m list"
  result :: string
  depth :: nat
  material_gain :: int

definition attack_entries :: "('b, 'm) rules \<Rightarrow> 'b \<Rightarrow> 'm \<Rightarrow> 'm attack_sequence list" where
  "attack_entries R board m =
     (let test_board = push R board m in
      if is_checkmate R test_board then
        [\<lparr>moves = [m], result = ''checkmate'', depth = 1,
          material_gain = get_captured_piece_value R board m\<rparr>]
      else
        (if is_check R test_board then
           [\<lparr>moves = [m], result = ''check'', depth = 1,
             material_gain = get_captured_piece_value R board m\<rparr>]
         else [])
        @ (if is_capture_move R board m then
             (let gain = get_captured_piece_value R board m in
              if gain > 0 then
                [\<lparr>moves = [m], result = ''capture'', depth = 1, material_gain = gain\<rparr>]
              else [])
           else []))"

definition attack_candidates :: "('b, 'm) rules \<Rightarrow> 'b \<Rightarrow> 'm attack_sequence list" where
  "attack_candidates R board = concat (map (attack_entries R board) (legal_moves R board))"

definition sequence_priority :: "'m attack_sequence \<Rightarrow> int" where
  "sequence_priority seq =
     (if result seq = ''checkmate'' then 10000
      else if result seq = ''check'' then 5000 + material_gain seq
      else material_gain seq)"

text \<open>
  \<open>list.sort(key=..., reverse=True)\<close> sorts by descending key and keeps the order of
  elements of equal key: the stable insertion sort on the negated key.
\<close>

definition sort_reverse :: "('a \<Rightarrow> 'k :: {linorder, uminus}) \<Rightarrow> 'a list \<Rightarrow> 'a list" where
  "sort_reverse key xs = sort_key (\<lambda>x. - key x) xs"

definition calculate_attack_sequences :: "('b, 'm) rules \<Rightarrow> 'b \<Rightarrow> 'm attack_sequence list" where
  "calculate_attack_sequences R board = sort_reverse sequence_priority (attack_candidates R board)"

record 'm defense =
  move :: 'm
  removes_check :: bool
  threats_reduced :: int
  material_cost :: int
  king_safer :: bool

definition defense_entry :: "('b, 'm) rules \<Rightarrow> bool \<Rightarrow> 'b \<Rightarrow> 'm \<Rightarrow> 'm defense" where
  "defense_entry R play_as_white board m =
     (let test_board = push R board m;
          piece_moved = piece_at R board (from_square R m);
          piece_value = (case piece_moved of None \<Rightarrow> 0 | Some p \<Rightarrow> PIECE_VALUES (piece_type p));
          removes_check = (if is_check R board then \<not> is_check R test_board else False);
          threats_before = int (length (detect_immediate_threats R play_as_white board));
          threats_after = int (length (detect_immediate_threats R play_as_white test_board));
          material_lost0 =
            (if is_capture R test_board m then - get_captured_piece_value R board m else 0);
          material_lost =
            (if \<not> is_game_over R test_board
                \<and> piece_moved \<noteq> None
                \<and> is_attacked_by R test_board (\<not> turn R board) (to_square R m)
                \<and> \<not> is_attacked_by R test_board (turn R board) (to_square R m)
             then material_lost0 + piece_value else material_lost0)
      in \<lparr>move = m, removes_check = removes_check,
          threats_reduced = threats_before - threats_after,
          material_cost = material_lost,
          king_safer = (threats_after < threats_before)\<rparr>)"

definition defense_priority :: "'m defense \<Rightarrow> int" where
  "defense_priority d =
     (if removes_check d then 10000 else 0) + threats_reduced d * 1000 - material_cost d"

definition calculate_defense_sequences ::
  "('b, 'm) rules \<Rightarrow> bool \<Rightarrow> 'b \<Rightarrow> 'm defense list" where
  "calculate_defense_sequences R play_as_white board =
     sort_reverse defense_priority (map (defense_entry R play_as_white board) (legal_moves R board))"

text \<open>\<open>analyze_position_before_move\<close>, without its printing.\<close>

record 'm analysis =
  king_in_check :: bool
  immediate_threats :: "threat list"
  material_balance :: int
  attack_sequences :: "'m attack_sequence list"
  defense_sequences :: "'m defense list"
  recommended_strategy :: string

definition analyze_position_before_move ::
  "('b, 'm) rules \<Rightarrow> bool \<Rightarrow> 'b \<Rightarrow> 'm analysis" where
  "analyze_position_before_move R play_as_white board =
     (let in_check = is_king_in_check R board;
          threats = detect_immediate_threats R play_as_white board;
          balance = get_material_balance R play_as_white board;
          attack = calculate_attack_sequences R board
      in if in_check \<or> length threats > 0 then
           (let defenses = calculate_defense_sequences R play_as_white board;
                strategy =
                  (if attack \<noteq> [] \<and> result (hd attack) = ''checkmate'' then ''attack''
                   else if defenses \<noteq> [] then ''defend''
                   else ''counter_attack'')
            in \<lparr>king_in_check = in_check, immediate_threats = threats,
                material_balance = balance, attack_sequences = attack,
                defense_sequences = defenses, recommended_strategy = strategy\<rparr>)
         else
           (let strategy =
                  (case attack of
                     [] \<Rightarrow> ''positional''
                   | best_attack # _ \<Rightarrow>
                       if result best_attack = ''checkmate'' then ''checkmate''
                       else if result best_attack = ''check'' then ''attack''
                       else if material_gain best_attack \<ge> 300 then ''capture''
                       else ''positional'')
            in \<lparr>king_in_check = in_check, immediate_threats = threats,
                material_balance = balance, attack_sequences = attack,
                defense_sequences = [], recommended_strategy = strategy\<rparr>))"

subsection \<open>The outcome simulator\<close>

text \<open>
  What \<open>simulate_tactical_game\<close> takes from outside: the opponent engine, if there is
  one (\<open>self.engine\<close>), whose answer at a ply is a move or a failure (\<open>None\<close>: the
  call raised); and the random source, read at each ply: whether \<open>random.random()\<close> is
  below 0.3, and the number from which \<open>random.choice\<close> takes its index.
\<close>

record ('b, 'm) sim_env =
  engine :: "(nat \<Rightarrow> 'b \<Rightarrow> 'm option) option"
  capture_coin :: "nat \<Rightarrow> bool"
  choice :: "nat \<Rightarrow> nat"

definition random_choice :: "nat \<Rightarrow> 'a list \<Rightarrow> 'a" where
  "random_choice n xs = xs ! (n mod length xs)"

definition empty_tactical_info :: tactical_info where
  "empty_tactical_info =
     \<lparr>captures_by_us = [], captures_by_opponent = [], material_balance_change = 0,
      checks_given = 0, checks_received = 0\<rparr>"

text \<open>One pass through the loop body; \<open>None\<close> is the \<open>break\<close>.\<close>

definition learner_turn ::
  "('b, 'm) rules \<Rightarrow> ('b, 'm) sim_env \<Rightarrow> 'b \<Rightarrow> nat \<Rightarrow> tactical_info
     \<Rightarrow> ('b \<times> tactical_info) option" where
  "learner_turn R E sim_board move_count ti =
     (let legal = legal_moves R sim_board in
      if legal = [] then None
      else
        (let captures = filter (is_capture R sim_board) legal;
             (m, ti1) =
               (if captures \<noteq> [] \<and> capture_coin E move_count then
                  (let m = random_choice (choice E move_count) captures;
                       v = get_captured_piece_value R sim_board m
                   in (m, ti\<lparr>captures_by_us :=
                               captures_by_us ti @ [(board_san R sim_board m, v)]\<rparr>))
                else
                  (let m = random_choice (choice E move_count) legal in
                   if is_capture R sim_board m then
                     (let v = get_captured_piece_value R sim_board m
                      in (m, ti\<lparr>captures_by_us :=
                                  captures_by_us ti @ [(board_san R sim_board m, v)]\<rparr>))
                   else (m, ti)));
             b' = push R sim_board m;
             ti2 = (if is_check R b' then ti1\<lparr>checks_given := checks_given ti1 + 1\<rparr> else ti1)
         in Some (b', ti2)))"

definition random_reply ::
  "('b, 'm) rules \<Rightarrow> ('b, 'm) sim_env \<Rightarrow> 'b \<Rightarrow> nat \<Rightarrow> tactical_info
     \<Rightarrow> ('b \<times> tactical_info) option" where
  "random_reply R E sim_board move_count ti =
     (let legal = legal_moves R sim_board in
      if legal = [] then None
      else Some (push R sim_board (random_choice (choice E move_count) legal), ti))"

definition opponent_turn ::
  "('b, 'm) rules \<Rightarrow> ('b, 'm) sim_env \<Rightarrow> 'b \<Rightarrow> nat \<Rightarrow> tactical_info
     \<Rightarrow> ('b \<times> tactical_info) option" where
  "opponent_turn R E sim_board move_count ti =
     (case engine E of
        None \<Rightarrow> random_reply R E sim_board move_count ti
      | Some play \<Rightarrow>
          (case play move_count sim_board of
             None \<Rightarrow> random_reply R E sim_board move_count ti
           | Some m \<Rightarrow>
               (let ti1 = (if is_capture R sim_board m
                           then ti\<lparr>captures_by_opponent := captures_by_opponent ti
                                    @ [(board_san R sim_board m,
                                        get_captured_piece_value R sim_board m)]\<rparr>
                           else ti);
                    b' = push R sim_board m;
                    ti2 = (if is_check R b'
                           then ti1\<lparr>checks_received := checks_received ti1 + 1\<rparr> else ti1)
                in Some (b', ti2))))"

definition sim_turn ::
  "('b, 'm) rules \<Rightarrow> ('b, 'm) sim_env \<Rightarrow> bool \<Rightarrow> 'b \<Rightarrow> nat \<Rightarrow> tactical_info
     \<Rightarrow> ('b \<times> tactical_info) option" where
  "sim_turn R E play_as_white sim_board move_count ti =
     (let is_learner_turn = ((turn R sim_board = True) = play_as_white) in
      if is_learner_turn then learner_turn R E sim_board move_count ti
      else opponent_turn R E sim_board move_count ti)"

function sim_loop ::
  "('b, 'm) rules \<Rightarrow> ('b, 'm) sim_env \<Rightarrow> bool \<Rightarrow> int \<Rightarrow> 'b \<Rightarrow> nat \<Rightarrow> tactical_info
     \<Rightarrow> 'b \<times> nat \<times> tactical_info" where
  "sim_loop R E play_as_white max_depth sim_board move_count ti =
     (if \<not> is_game_over R sim_board \<and> int move_count < max_depth then
        (case sim_turn R E play_as_white sim_board move_count ti of
           None \<Rightarrow> (sim_board, move_count, ti)
         | Some (b', ti') \<Rightarrow> sim_loop R E play_as_white max_depth b' (move_count + 1) ti')
      else (sim_board, move_count, ti))"
  by pat_completeness auto
termination
  by (relation "measure (\<lambda>(R, E, paw, max_depth, b, move_count, ti). nat (max_depth - int move_count))")
    auto

definition determine_result :: "('b, 'm) rules \<Rightarrow> bool \<Rightarrow> 'b \<Rightarrow> string" where
  "determine_result R play_as_white sim_board =
     (if is_checkmate R sim_board then
        (let winner_is_white = (\<not> turn R sim_board) in
         if winner_is_white = play_as_white then ''WIN'' else ''LOSS'')
      else if is_stalemate R sim_board \<or> is_insufficient_material R sim_board
              \<or> is_fifty_moves R sim_board \<or> is_repetition R sim_board
      then ''DRAW''
      else ''DRAW'')"

definition sim_final_board ::
  "('b, 'm) rules \<Rightarrow> ('b, 'm) sim_env \<Rightarrow> bool \<Rightarrow> int \<Rightarrow> 'b \<Rightarrow> 'm \<Rightarrow> 'b" where
  "sim_final_board R E play_as_white max_depth board first_move =
     fst (sim_loop R E play_as_white max_depth (push R board first_move) 1 empty_tactical_info)"

definition simulate_tactical_game ::
  "('b, 'm) rules \<Rightarrow> ('b, 'm) sim_env \<Rightarrow> bool \<Rightarrow> int \<Rightarrow> 'b \<Rightarrow> 'm
     \<Rightarrow> string \<times> nat \<times> tactical_info" where
  "simulate_tactical_game R E play_as_white max_depth board first_move =
     (let sim_board = push R board first_move;
          initial_balance = get_material_balance R play_as_white sim_board
      in case sim_loop R E play_as_white max_depth sim_board 1 empty_tactical_info of
           (final_board, move_count, ti) \<Rightarrow>
             (let final_balance = get_material_balance R play_as_white final_board;
                  ti' = ti\<lparr>material_balance_change := final_balance - initial_balance\<rparr>
              in (determine_result R play_as_white final_board, move_count, ti')))"

subsection \<open>The move search loop\<close>

text \<open>\<open>str.split(' ')\<close> and \<open>' '.join\<close>, for \<open>_get_position_key\<close>.\<close>

fun split_on :: "char \<Rightarrow> string \<Rightarrow> string list" where
  "split_on c [] = [[]]"
| "split_on c (x # xs) =
     (if x = c then [] # split_on c xs
      else case split_on c xs of
             [] \<Rightarrow> [[x]]
           | w # ws \<Rightarrow> (x # w) # ws)"

fun join_with :: "string \<Rightarrow> string list \<Rightarrow> string" where
  "join_with sep [] = []"
| "join_with sep [x] = x"
| "join_with sep (x # y # ys) = x @ sep @ join_with sep (y # ys)"

definition get_position_key :: "('b, 'm) rules \<Rightarrow> bool \<Rightarrow> 'b \<Rightarrow> string" where
  "get_position_key R play_as_white board =
     (let fen_parts = split_on CHR '' '' (fen R board);
          position_fen = join_with '' '' (take 4 fen_parts);
          c = (if play_as_white then ''white'' else ''black'')
      in position_fen @ ''|playing_as_'' @ c)"

definition get_untried_moves :: "('b, 'm) rules \<Rightarrow> 'b \<Rightarrow> memory \<Rightarrow> string \<Rightarrow> 'm list" where
  "get_untried_moves R board mem position_key =
     (let tried_moves = (case mem position_key of None \<Rightarrow> [] | Some b \<Rightarrow> map fst b)
      in filter (\<lambda>m. uci R m \<notin> set tried_moves) (legal_moves R board))"

text \<open>
  What the search takes from outside: the environment of the game simulated at each
  attempt, and the number from which \<open>random.choice(untried)\<close> takes its index.
\<close>

record ('b, 'm) search_env =
  sim_envs :: "nat \<Rightarrow> ('b, 'm) sim_env"
  pick :: "nat \<Rightarrow> nat"

text \<open>
  The local variable \<open>best_draw\<close> is assigned on some paths only. Once bound, it is
  \<open>None\<close> or a pair of a move's notation and a reference to that move's dictionary in
  the memory: the dictionary is updated in place by later recordings, so the model keeps
  the move identifier and reads the record from the current memory.
\<close>

datatype 'a local_var = Unbound | Bound 'a

type_synonym best_draw = "(string \<times> string) option local_var"

text \<open>
  Step 2 of \<open>find_winning_move\<close>: \<open>Inl\<close> is the move returned at once from memory,
  \<open>Inr\<close> the state of \<open>best_draw\<close> with which the search goes on. The \<open>else\<close> that
  assigns \<open>None\<close> belongs to \<open>if best_from_memory\<close>.
\<close>

definition check_memory ::
  "string \<Rightarrow> (string \<times> string \<times> move_data) option \<Rightarrow> string + best_draw" where
  "check_memory strategy best_from_memory =
     (case best_from_memory of
        Some (move_uci, move_san, d) \<Rightarrow>
          if strategy = ''defend'' \<or> strategy = ''counter_attack'' then
            (if wins d > 0 then Inl move_san else Inr Unbound)
          else if wins d > 0 then Inl move_san
          else if draws d > 0 then Inr (Bound (Some (move_san, move_uci)))
          else Inr Unbound
      | None \<Rightarrow> Inr (Bound None))"

text \<open>Every entry of an attack sequence list holds exactly one move.\<close>

definition priority_moves_of :: "'m analysis \<Rightarrow> 'm list" where
  "priority_moves_of a =
     (if recommended_strategy a = ''defend'' then
        map move (take 5 (defense_sequences a))
      else if recommended_strategy a = ''attack'' \<or> recommended_strategy a = ''checkmate''
              \<or> recommended_strategy a = ''capture'' then
        map (\<lambda>s. hd (moves s)) (take 5 (attack_sequences a))
      else [])"

text \<open>
  The retry branch: the candidates in dictionary order, sorted by descending score. The
  key function is called once on each candidate, in order, and its error is the sort's.
\<close>

fun score_all :: "bucket \<Rightarrow> py_error + (real \<times> string \<times> move_data) list" where
  "score_all [] = Inr []"
| "score_all ((move_uci, d) # rest) =
     (case get_move_score d of
        Inl e \<Rightarrow> Inl e
      | Inr s \<Rightarrow> (case score_all rest of
                    Inl e \<Rightarrow> Inl e
                  | Inr scored \<Rightarrow> Inr ((s, move_uci, d) # scored)))"

definition retry_move :: "('b, 'm) rules \<Rightarrow> bucket \<Rightarrow> py_error + 'm option" where
  "retry_move R b =
     (let retry_candidates = filter (\<lambda>p. should_retry_move (snd p)) b in
      if retry_candidates = [] then Inr None
      else case score_all retry_candidates of
             Inl e \<Rightarrow> Inl e
           | Inr scored \<Rightarrow>
               (case from_uci R (fst (snd (hd (sort_reverse fst scored)))) of
                  None \<Rightarrow> Inl ValueError
                | Some m \<Rightarrow> Inr (Some m)))"

text \<open>
  The choice of the move to test: \<open>Inr None\<close> is the \<open>break\<close>; otherwise the move and
  the list of priority moves that is left.
\<close>

definition choose_move ::
  "('b, 'm) rules \<Rightarrow> nat \<Rightarrow> 'b \<Rightarrow> memory \<Rightarrow> string \<Rightarrow> 'm list
     \<Rightarrow> py_error + ('m \<times> 'm list) option" where
  "choose_move R rnd board mem position_key priority_moves =
     (let untried = get_untried_moves R board mem position_key in
      if priority_moves \<noteq> [] \<and> untried \<noteq> [] then
        (let priority_untried = filter (\<lambda>m. m \<in> set untried) priority_moves in
         if priority_untried \<noteq> [] then
           Inr (Some (hd priority_untried, remove1 (hd priority_untried) priority_moves))
         else Inr (Some (random_choice rnd untried, priority_moves)))
      else if untried \<noteq> [] then Inr (Some (random_choice rnd untried, priority_moves))
      else
        (case mem position_key of
           Some b \<Rightarrow>
             (case retry_move R b of
                Inl e \<Rightarrow> Inl e
              | Inr None \<Rightarrow> Inr None
              | Inr (Some m) \<Rightarrow> Inr (Some (m, priority_moves)))
         | None \<Rightarrow> Inr None))"

definition material_of :: "memory \<Rightarrow> string \<Rightarrow> string \<Rightarrow> int" where
  "material_of mem position_key move_uci =
     (case map_of (get_bucket mem position_key) move_uci of
        None \<Rightarrow> 0
      | Some d \<Rightarrow> total_material_gained d)"

text \<open>
  "Track best draw": reading \<open>best_draw\<close> while it is unbound raises
  \<open>UnboundLocalError\<close>.
\<close>

definition track_best_draw ::
  "memory \<Rightarrow> string \<Rightarrow> string \<Rightarrow> string \<Rightarrow> best_draw \<Rightarrow> py_error + best_draw" where
  "track_best_draw mem position_key move_uci move_san best_draw =
     (case best_draw of
        Unbound \<Rightarrow> Inl UnboundLocalError
      | Bound None \<Rightarrow> Inr (Bound (Some (move_san, move_uci)))
      | Bound (Some (best_san, best_uci)) \<Rightarrow>
          (let current_material = material_of mem position_key move_uci;
               best_material = material_of mem position_key best_uci
           in if current_material > best_material then Inr (Bound (Some (move_san, move_uci)))
              else Inr (Bound (Some (best_san, best_uci)))))"

text \<open>"Return best result found", after the loop.\<close>

definition return_best ::
  "best_draw \<Rightarrow> memory \<Rightarrow> py_error + (string option \<times> memory)" where
  "return_best best_draw mem =
     (case best_draw of
        Unbound \<Rightarrow> Inl UnboundLocalError
      | Bound None \<Rightarrow> Inr (None, mem)
      | Bound (Some (move_san, move_uci)) \<Rightarrow> Inr (Some move_san, mem))"

function search_loop ::
  "('b, 'm) rules \<Rightarrow> ('b, 'm) search_env \<Rightarrow> bool \<Rightarrow> int \<Rightarrow> 'b \<Rightarrow> string \<Rightarrow> int
     \<Rightarrow> nat \<Rightarrow> 'm list \<Rightarrow> best_draw \<Rightarrow> memory \<Rightarrow> py_error + (string option \<times> memory)" where
  "search_loop R E play_as_white max_depth board position_key max_strength
       attempts priority_moves best_draw mem =
     (if int attempts < max_strength then
        (case choose_move R (pick E (attempts + 1)) board mem position_key priority_moves of
           Inl e \<Rightarrow> Inl e
         | Inr None \<Rightarrow> return_best best_draw mem
         | Inr (Some (m, priority_moves')) \<Rightarrow>
             (let move_uci = uci R m;
                  move_san = board_san R board m
              in case simulate_tactical_game R (sim_envs E (attempts + 1)) play_as_white
                        max_depth board m of
                   (res, move_count, ti) \<Rightarrow>
                     (let mem' = record_move_result position_key mem move_uci move_san res
                                   move_count (Some ti)
                      in if res = ''WIN'' then Inr (Some move_san, mem')
                         else if res = ''DRAW'' then
                           (case track_best_draw mem' position_key move_uci move_san best_draw of
                              Inl e \<Rightarrow> Inl e
                            | Inr best_draw' \<Rightarrow>
                                search_loop R E play_as_white max_depth board position_key
                                  max_strength (attempts + 1) priority_moves' best_draw' mem')
                         else
                           search_loop R E play_as_white max_depth board position_key
                             max_strength (attempts + 1) priority_moves' best_draw mem')))
      else return_best best_draw mem)"
  by pat_completeness auto
termination
  by (relation "measure (\<lambda>(R, E, paw, max_depth, board, position_key, max_strength,
        attempts, priority_moves, best_draw, mem). nat (max_strength - int attempts))")
    auto

definition find_winning_move ::
  "('b, 'm) rules \<Rightarrow> ('b, 'm) search_env \<Rightarrow> bool \<Rightarrow> int \<Rightarrow> 'b \<Rightarrow> memory \<Rightarrow> int
     \<Rightarrow> py_error + (string option \<times> memory)" where
  "find_winning_move R E play_as_white max_depth board mem max_strength =
     (let a = analyze_position_before_move R play_as_white board;
          position_key = get_position_key R play_as_white board
      in case get_best_move_from_memory mem position_key of
           Inl e \<Rightarrow> Inl e
         | Inr best_from_memory \<Rightarrow>
             (case check_memory (recommended_strategy a) best_from_memory of
                Inl move_san \<Rightarrow> Inr (Some move_san, mem)
              | Inr best_draw \<Rightarrow>
                  search_loop R E play_as_white max_depth board position_key max_strength
                    0 (priority_moves_of a) best_draw mem))"

subsection \<open>A concrete rules engine: kings and rooks\<close>

text \<open>
  An instance of the rules-engine parameter on which the definitions can be run: chess
  on the 8 by 8 board with kings and rooks only, without castling and without a move
  history (so no fifty-move and no repetition draws). A board is the list of its pieces
  with their squares and the side to move; a move is a pair of squares. The attack set of
  a piece includes the first occupied square of each ray; \<open>is_capture\<close> tests, as the
  library does, whether the move touches a square held by the side not to move; the
  notation is the piece letter, \<open>x\<close> for a capture, the target square and \<open>+\<close> or
  \<open>#\<close>.
\<close>

type_synonym kr_board = "(nat \<times> piece) list \<times> bool"
type_synonym kr_move = "nat \<times> nat"

definition kr_piece_at :: "kr_board \<Rightarrow> nat \<Rightarrow> piece option" where
  "kr_piece_at b sq = map_of (fst b) sq"

definition kr_turn :: "kr_board \<Rightarrow> bool" where
  "kr_turn b = snd b"

definition on_board :: "int \<Rightarrow> int \<Rightarrow> bool" where
  "on_board f r = (0 \<le> f \<and> f \<le> 7 \<and> 0 \<le> r \<and> r \<le> 7)"

definition directions_rook :: "(int \<times> int) list" where
  "directions_rook = [(0, 1), (0, - 1), (1, 0), (- 1, 0)]"

definition directions_king :: "(int \<times> int) list" where
  "directions_king = [(0, 1), (0, - 1), (1, 0), (- 1, 0), (1, 1), (1, - 1), (- 1, 1), (- 1, - 1)]"

fun ray :: "kr_board \<Rightarrow> int \<Rightarrow> int \<Rightarrow> int \<times> int \<Rightarrow> nat \<Rightarrow> nat list" where
  "ray b f r d 0 = []"
| "ray b f r d (Suc n) =
     (let f' = f + fst d; r' = r + snd d in
      if \<not> on_board f' r' then []
      else if kr_piece_at b (nat (r' * 8 + f')) \<noteq> None then [nat (r' * 8 + f')]
      else nat (r' * 8 + f') # ray b f' r' d n)"

definition kr_attacks :: "kr_board \<Rightarrow> nat \<Rightarrow> nat list" where
  "kr_attacks b sq =
     (let f = int (sq mod 8); r = int (sq div 8) in
      case kr_piece_at b sq of
        None \<Rightarrow> []
      | Some p \<Rightarrow>
          if piece_type p = KING then
            concat (map (\<lambda>d. if on_board (f + fst d) (r + snd d)
                               then [nat ((r + snd d) * 8 + (f + fst d))] else []) directions_king)
          else if piece_type p = ROOK then
            concat (map (\<lambda>d. ray b f r d 7) directions_rook)
          else [])"

definition kr_is_attacked_by :: "kr_board \<Rightarrow> bool \<Rightarrow> nat \<Rightarrow> bool" where
  "kr_is_attacked_by b c sq =
     list_ex (\<lambda>sp. color (snd sp) = c \<and> sq \<in> set (kr_attacks b (fst sp))) (fst b)"

definition kr_pieces :: "kr_board \<Rightarrow> piece_type \<Rightarrow> bool \<Rightarrow> nat list" where
  "kr_pieces b pt c =
     map fst (filter (\<lambda>sp. piece_type (snd sp) = pt \<and> color (snd sp) = c) (fst b))"

definition kr_king :: "kr_board \<Rightarrow> bool \<Rightarrow> nat option" where
  "kr_king b c = (case kr_pieces b KING c of [] \<Rightarrow> None | sq # _ \<Rightarrow> Some sq)"

definition kr_push :: "kr_board \<Rightarrow> kr_move \<Rightarrow> kr_board" where
  "kr_push b m =
     (case kr_piece_at b (fst m) of
        None \<Rightarrow> (fst b, \<not> snd b)
      | Some p \<Rightarrow>
          ((snd m, p) # filter (\<lambda>sp. fst sp \<noteq> fst m \<and> fst sp \<noteq> snd m) (fst b), \<not> snd b))"

definition kr_in_check :: "kr_board \<Rightarrow> bool \<Rightarrow> bool" where
  "kr_in_check b c = (case kr_king b c of None \<Rightarrow> False | Some k \<Rightarrow> kr_is_attacked_by b (\<not> c) k)"

definition kr_is_check :: "kr_board \<Rightarrow> bool" where
  "kr_is_check b = kr_in_check b (kr_turn b)"

definition kr_pseudo_legal :: "kr_board \<Rightarrow> kr_move list" where
  "kr_pseudo_legal b =
     concat (map (\<lambda>sp. if color (snd sp) = kr_turn b
                         then map (\<lambda>t. (fst sp, t))
                                (filter (\<lambda>t. case kr_piece_at b t of
                                                None \<Rightarrow> True
                                              | Some q \<Rightarrow> color q \<noteq> kr_turn b)
                                   (kr_attacks b (fst sp)))
                         else []) (fst b))"

definition kr_legal_moves :: "kr_board \<Rightarrow> kr_move list" where
  "kr_legal_moves b = filter (\<lambda>m. \<not> kr_in_check (kr_push b m) (kr_turn b)) (kr_pseudo_legal b)"

definition kr_is_checkmate :: "kr_board \<Rightarrow> bool" where
  "kr_is_checkmate b = (kr_is_check b \<and> kr_legal_moves b = [])"

definition kr_is_stalemate :: "kr_board \<Rightarrow> bool" where
  "kr_is_stalemate b = (\<not> kr_is_check b \<and> kr_legal_moves b = [])"

definition kr_is_insufficient_material :: "kr_board \<Rightarrow> bool" where
  "kr_is_insufficient_material b = list_all (\<lambda>sp. piece_type (snd sp) = KING) (fst b)"

definition kr_is_game_over :: "kr_board \<Rightarrow> bool" where
  "kr_is_game_over b = (kr_is_checkmate b \<or> kr_is_stalemate b \<or> kr_is_insufficient_material b)"

definition kr_is_capture :: "kr_board \<Rightarrow> kr_move \<Rightarrow> bool" where
  "kr_is_capture b m =
     list_ex (\<lambda>sp. color (snd sp) \<noteq> kr_turn b \<and> (fst sp = fst m \<or> fst sp = snd m)) (fst b)"

definition kr_uci :: "kr_move \<Rightarrow> string" where
  "kr_uci m = square_name (fst m) @ square_name (snd m)"

fun index_of :: "'a \<Rightarrow> 'a list \<Rightarrow> nat option" where
  "index_of x [] = None"
| "index_of x (y # ys) = (if x = y then Some 0 else map_option Suc (index_of x ys))"

definition parse_square :: "char \<Rightarrow> char \<Rightarrow> nat option" where
  "parse_square c1 c2 =
     (case (index_of c1 ''abcdefgh'', index_of c2 ''12345678'') of
        (Some f, Some r) \<Rightarrow> Some (r * 8 + f)
      | _ \<Rightarrow> None)"

definition kr_from_uci :: "string \<Rightarrow> kr_move option" where
  "kr_from_uci s =
     (case s of
        [a, b, c, d] \<Rightarrow>
          (case (parse_square a b, parse_square c d) of
             (Some f, Some t) \<Rightarrow> Some (f, t)
           | _ \<Rightarrow> None)
      | _ \<Rightarrow> None)"

definition kr_san :: "kr_board \<Rightarrow> kr_move \<Rightarrow> string" where
  "kr_san b m =
     (case kr_piece_at b (fst m) of None \<Rightarrow> [] | Some p \<Rightarrow> if piece_type p = KING then ''K'' else ''R'')
     @ (if kr_is_capture b m then ''x'' else [])
     @ square_name (snd m)
     @ (if kr_is_checkmate (kr_push b m) then ''#''
        else if kr_is_check (kr_push b m) then ''+'' else [])"

definition piece_symbol :: "piece \<Rightarrow> char" where
  "piece_symbol p =
     (if color p then (if piece_type p = KING then CHR ''K'' else CHR ''R'')
      else (if piece_type p = KING then CHR ''k'' else CHR ''r''))"

fun fen_rank :: "kr_board \<Rightarrow> nat \<Rightarrow> nat list \<Rightarrow> nat \<Rightarrow> string" where
  "fen_rank b r [] empties = (if empties = 0 then [] else [''012345678'' ! empties])"
| "fen_rank b r (f # fs) empties =
     (case kr_piece_at b (r * 8 + f) of
        None \<Rightarrow> fen_rank b r fs (Suc empties)
      | Some p \<Rightarrow> (if empties = 0 then [] else [''012345678'' ! empties])
                    @ piece_symbol p # fen_rank b r fs 0)"

definition kr_fen :: "kr_board \<Rightarrow> string" where
  "kr_fen b =
     join_with ''/'' (map (\<lambda>r. fen_rank b r [0..<8] 0) (rev [0..<8]))
     @ (if kr_turn b then '' w'' else '' b'') @ '' - - 0 1''"

definition kr_rules :: "(kr_board, kr_move) rules" where
  "kr_rules =
     \<lparr>fen = kr_fen, turn = kr_turn, legal_moves = kr_legal_moves, push = kr_push,
      pieces = kr_pieces, piece_at = kr_piece_at, king = kr_king, attacks = kr_attacks,
      is_attacked_by = kr_is_attacked_by, is_capture = kr_is_capture, is_check = kr_is_check,
      is_checkmate = kr_is_checkmate, is_stalemate = kr_is_stalemate,
      is_insufficient_material = kr_is_insufficient_material,
      is_fifty_moves = (\<lambda>b. False), is_repetition = (\<lambda>b. False),
      is_game_over = kr_is_game_over, board_san = kr_san, uci = kr_uci,
      from_uci = kr_from_uci, from_square = fst, to_square = snd\<rparr>"

definition kr_root :: kr_board where
  "kr_root =
     ([(6, \<lparr>piece_type = KING, color = True\<rparr>), (40, \<lparr>piece_type = ROOK, color = True\<rparr>),
       (46, \<lparr>piece_type = ROOK, color = False\<rparr>), (62, \<lparr>piece_type = KING, color = False\<rparr>)],
      True)"

text \<open>
  Two positions. \<open>kr_root\<close> is \<open>6k1/8/R5r1/8/8/8/8/6K1 w\<close>: White's king on g1 is
  in check from the rook on g6, and White's rook on a6 can capture that rook with check.
  \<open>kr_mate\<close> is \<open>7r/8/8/k1K5/8/8/8/7R w\<close>: White mates with the rook on a1 and can
  also capture the rook on h8.
\<close>

definition kr_mate :: kr_board where
  "kr_mate =
     ([(34, \<lparr>piece_type = KING, color = True\<rparr>), (7, \<lparr>piece_type = ROOK, color = True\<rparr>),
       (63, \<lparr>piece_type = ROOK, color = False\<rparr>), (32, \<lparr>piece_type = KING, color = False\<rparr>)],
      True)"

text \<open>
  Environments: no opponent engine at all, or an engine whose every call fails; the
  random source always answers "not below 0.3" and index 0.
\<close>

definition no_engine_env :: "(kr_board, kr_move) sim_env" where
  "no_engine_env = \<lparr>engine = None, capture_coin = (\<lambda>n. False), choice = (\<lambda>n. 0)\<rparr>"

definition failing_engine_env :: "(kr_board, kr_move) sim_env" where
  "failing_engine_env =
     \<lparr>engine = Some (\<lambda>n b. None), capture_coin = (\<lambda>n. False), choice = (\<lambda>n. 0)\<rparr>"

definition kr_search_env :: "(kr_board, kr_move) search_env" where
  "kr_search_env = \<lparr>sim_envs = (\<lambda>n. no_engine_env), pick = (\<lambda>n. 0)\<rparr>"

text \<open>
  What the ranking promises of an entry: its kind, its priority and the material it can
  carry (a captured piece's value; a capture entry's is positive).
\<close>

definition entry_ok :: "'m attack_sequence \<Rightarrow> bool" where
  "entry_ok s =
     ((result s = ''checkmate'' \<and> sequence_priority s = 10000)
      \<or> (result s = ''check'' \<and> sequence_priority s = 5000 + material_gain s
          \<and> material_gain s \<in> {0, 100, 320, 330, 500, 900})
      \<or> (result s = ''capture'' \<and> sequence_priority s = material_gain s
          \<and> material_gain s \<in> {100, 320, 330, 500, 900}))"

text \<open>The search's answer without the memory: the move found, no move, or the exception.\<close>

definition search_outcome :: "py_error + (string option \<times> memory) \<Rightarrow> py_error + string option" where
  "search_outcome r = (case r of Inl e \<Rightarrow> Inl e | Inr (move_san, mem) \<Rightarrow> Inr move_san)"

section \<open>Retry eligibility\<close>

text \<open>
  C9: a record is retry-eligible if it has a win or a draw, whatever its number of
  attempts, and if it has fewer than three attempts; it is refused exactly when it has
  three or more attempts and neither a win nor a draw.
\<close>

theorem should_retry_move_spec:
  "(wins d > 0 \<or> draws d > 0 \<longrightarrow> should_retry_move d)
   \<and> (wins d + draws d + losses d < 3 \<longrightarrow> should_retry_move d)
   \<and> (\<not> should_retry_move d
        \<longleftrightarrow> wins d + draws d + losses d \<ge> 3 \<and> wins d = 0 \<and> draws d = 0)"
  by (auto simp: should_retry_move_def Let_def)

theorem should_retry_move_spec_witness:
  "should_retry_move (new_move_data ''e4''\<lparr>wins := 1, losses := 7\<rparr>)
   \<and> should_retry_move (new_move_data ''e4''\<lparr>losses := 2\<rparr>)
   \<and> \<not> should_retry_move (new_move_data ''e4''\<lparr>losses := 3\<rparr>)"
  using should_retry_move_spec [of "new_move_data ''e4''\<lparr>wins := 1, losses := 7\<rparr>"]
    should_retry_move_spec [of "new_move_data ''e4''\<lparr>losses := 2\<rparr>"]
    should_retry_move_spec [of "new_move_data ''e4''\<lparr>losses := 3\<rparr>"]
  by (simp add: new_move_data_def)

section \<open>The scoring function\<close>

lemma speed_bonus_bounds: "speed_bonus m = Inr sb \<Longrightarrow> 0 \<le> sb \<and> sb \<le> 1000"
proof (cases m)
  case None
  assume "speed_bonus m = Inr sb"
  with None show ?thesis by (simp add: speed_bonus_def)
next
  case (Some k)
  assume h: "speed_bonus m = Inr sb"
  with Some have k: "k \<noteq> 0" and sb: "sb = 1000 / real k"
    by (auto simp: speed_bonus_def split: if_splits)
  from k have "1 \<le> real k" by simp
  then have "1000 / real k \<le> 1000"
    by (simp add: divide_le_eq)
  with sb show ?thesis by simp
qed

lemma win_score_lower:
  assumes "0 < wins d" and "get_move_score d = Inr s"
  shows "10000 + capture_bonus d + material_bonus d < s"
proof -
  from assms obtain sb where sb: "speed_bonus (min_moves_to_win d) = Inr sb"
    and s: "s = 10000 + sb + (real (wins d) / real (wins d + draws d + losses d)) * 500
                + capture_bonus d + material_bonus d"
    by (auto simp: get_move_score_def Let_def split: sum.splits)
  have "0 < real (wins d) / real (wins d + draws d + losses d)"
    using assms(1) by simp
  then have "0 < (real (wins d) / real (wins d + draws d + losses d)) * 500"
    by (rule mult_pos_pos) simp
  moreover have "0 \<le> sb" using speed_bonus_bounds [OF sb] by simp
  ultimately show ?thesis unfolding s by linarith
qed

lemma draw_score_lower:
  assumes "wins d = 0" and "0 < draws d" and "get_move_score d = Inr s"
  shows "5000 + capture_bonus d + material_bonus d < s"
proof -
  from assms obtain sb where sb: "speed_bonus (min_moves_to_draw d) = Inr sb"
    and s: "s = 5000 + sb + (real (draws d) / real (wins d + draws d + losses d)) * 500
                + capture_bonus d + material_bonus d"
    by (auto simp: get_move_score_def Let_def split: sum.splits)
  have "0 < real (draws d) / real (wins d + draws d + losses d)"
    using assms(2) by simp
  then have "0 < (real (draws d) / real (wins d + draws d + losses d)) * 500"
    by (rule mult_pos_pos) simp
  moreover have "0 \<le> sb" using speed_bonus_bounds [OF sb] by simp
  ultimately show ?thesis unfolding s by linarith
qed

lemma loss_score:
  assumes "wins d = 0" and "draws d = 0" and "0 < losses d" and "get_move_score d = Inr s"
  shows "s = 100 / 11 + capture_bonus d + material_bonus d"
  using assms by (simp add: get_move_score_def Let_def)

lemma nonwin_score_upper:
  assumes "wins d = 0" and "0 < wins d + draws d + losses d" and "get_move_score d = Inr s"
  shows "s \<le> 6500 + capture_bonus d + material_bonus d"
proof (cases "0 < draws d")
  case True
  from assms True obtain sb where sb: "speed_bonus (min_moves_to_draw d) = Inr sb"
    and s: "s = 5000 + sb + (real (draws d) / real (wins d + draws d + losses d)) * 500
                + capture_bonus d + material_bonus d"
    by (auto simp: get_move_score_def Let_def split: sum.splits)
  have "real (draws d) / real (wins d + draws d + losses d) \<le> 1"
    using True by (simp add: divide_le_eq)
  then have "(real (draws d) / real (wins d + draws d + losses d)) * 500 \<le> 1 * 500"
    by (rule mult_right_mono) simp
  moreover have "sb \<le> 1000" using speed_bonus_bounds [OF sb] by simp
  ultimately show ?thesis unfolding s by linarith
next
  case False
  with assms have "s = 100 / 11 + capture_bonus d + material_bonus d"
    by (intro loss_score) auto
  then show ?thesis by simp
qed

text \<open>
  C1, as stated, fails: the capture and material bonuses are added without a cap. The
  record \<open>busy_draw\<close> has no win and scores 11505; the record \<open>quick_win\<close> has a win
  and scores 10520.
\<close>

theorem score_tier_counterexample:
  "0 < wins quick_win \<and> wins busy_draw = 0
   \<and> get_move_score quick_win = Inr 10520
   \<and> get_move_score busy_draw = Inr 11505
   \<and> \<not> (11505 < (10520 :: real))"
  by (simp add: quick_win_def busy_draw_def get_move_score_def speed_bonus_def
      capture_bonus_def material_bonus_def)

text \<open>
  C1, amended: let both records have a score (no stored minimum of 0 plies) and let the
  second have at least one recorded outcome. A record with a win outscores a record with
  no win whenever the second's tactical bonus (capture bonus plus material bonus) is at
  most 3500 above the first's; a record with a draw and no win outscores a record with
  neither whenever the second's bonus is at most 4990 above the first's. In particular
  the tiers hold between records of equal bonus.
\<close>

theorem score_tier_separation:
  assumes "get_move_score r1 = Inr s1" and "get_move_score r2 = Inr s2"
    and "0 < wins r2 + draws r2 + losses r2"
  shows "(0 < wins r1 \<and> wins r2 = 0
            \<and> capture_bonus r2 + material_bonus r2 \<le> capture_bonus r1 + material_bonus r1 + 3500
          \<longrightarrow> s2 < s1)
       \<and> (wins r1 = 0 \<and> 0 < draws r1 \<and> wins r2 = 0 \<and> draws r2 = 0
            \<and> capture_bonus r2 + material_bonus r2 \<le> capture_bonus r1 + material_bonus r1 + 4990
          \<longrightarrow> s2 < s1)"
proof (intro conjI impI)
  assume h: "0 < wins r1 \<and> wins r2 = 0
     \<and> capture_bonus r2 + material_bonus r2 \<le> capture_bonus r1 + material_bonus r1 + 3500"
  from h assms(1) have "10000 + capture_bonus r1 + material_bonus r1 < s1"
    by (intro win_score_lower) auto
  moreover from h assms(2,3) have "s2 \<le> 6500 + capture_bonus r2 + material_bonus r2"
    by (intro nonwin_score_upper) auto
  ultimately show "s2 < s1" using h by linarith
next
  assume h: "wins r1 = 0 \<and> 0 < draws r1 \<and> wins r2 = 0 \<and> draws r2 = 0
     \<and> capture_bonus r2 + material_bonus r2 \<le> capture_bonus r1 + material_bonus r1 + 4990"
  from h assms(1) have "5000 + capture_bonus r1 + material_bonus r1 < s1"
    by (intro draw_score_lower) auto
  moreover from h assms(2,3) have "s2 = 100 / 11 + capture_bonus r2 + material_bonus r2"
    by (intro loss_score) auto
  ultimately show "s2 < s1" using h by linarith
qed

theorem score_tier_separation_witness:
  "get_move_score quick_win = Inr 10520 \<and> get_move_score plain_loss = Inr (100 / 11)
   \<and> 0 < wins plain_loss + draws plain_loss + losses plain_loss
   \<and> 0 < wins quick_win \<and> wins plain_loss = 0
   \<and> capture_bonus plain_loss + material_bonus plain_loss
        \<le> capture_bonus quick_win + material_bonus quick_win + 3500
   \<and> (100 / 11 :: real) < 10520
   \<and> get_move_score busy_draw = Inr 11505
   \<and> wins busy_draw = 0 \<and> 0 < draws busy_draw \<and> draws plain_loss = 0
   \<and> capture_bonus plain_loss + material_bonus plain_loss
        \<le> capture_bonus busy_draw + material_bonus busy_draw + 4990
   \<and> (100 / 11 :: real) < 11505"
proof -
  have q: "get_move_score quick_win = Inr 10520"
    by (simp add: quick_win_def get_move_score_def speed_bonus_def capture_bonus_def
        material_bonus_def)
  have l: "get_move_score plain_loss = Inr (100 / 11)"
    by (simp add: plain_loss_def get_move_score_def capture_bonus_def material_bonus_def)
  have b: "get_move_score busy_draw = Inr 11505"
    by (simp add: busy_draw_def get_move_score_def speed_bonus_def capture_bonus_def
        material_bonus_def)
  have t: "0 < wins plain_loss + draws plain_loss + losses plain_loss"
    by (simp add: plain_loss_def)
  have f: "0 < wins quick_win \<and> wins plain_loss = 0
     \<and> capture_bonus plain_loss + material_bonus plain_loss
        \<le> capture_bonus quick_win + material_bonus quick_win + 3500"
    by (simp add: quick_win_def plain_loss_def capture_bonus_def material_bonus_def)
  have g: "wins busy_draw = 0 \<and> 0 < draws busy_draw \<and> wins plain_loss = 0 \<and> draws plain_loss = 0
     \<and> capture_bonus plain_loss + material_bonus plain_loss
        \<le> capture_bonus busy_draw + material_bonus busy_draw + 4990"
    by (simp add: busy_draw_def plain_loss_def capture_bonus_def material_bonus_def)
  from score_tier_separation [OF q l t] f have "(100 / 11 :: real) < 10520" by blast
  moreover from score_tier_separation [OF b l t] g have "(100 / 11 :: real) < 11505" by blast
  ultimately show ?thesis using q l b t f g by blast
qed

section \<open>Recording outcomes\<close>

lemma set_dict_set: "set (dict_set k v b) \<subseteq> insert (k, v) (set b)"
  by (induction b) auto

lemma map_of_dict_set: "map_of (dict_set k v b) k = Some v"
  by (induction b) auto

lemma record_ok_new: "record_ok (new_move_data s)"
  by (simp add: record_ok_def new_move_data_def)

lemma record_ok_step:
  "record_ok d \<Longrightarrow>
   record_ok (update_statistics r n
     ((add_tactical ti d)\<lparr>results := results (add_tactical ti d) @ [e]\<rparr>))"
  by (cases ti) (simp_all add: record_ok_def update_statistics_def add_tactical_def)

lemma record_ok_get_record:
  "\<forall>p \<in> set b. record_ok (snd p) \<Longrightarrow> record_ok (get_record b u s)"
  by (auto simp: get_record_def record_ok_new split: option.splits dest!: map_of_SomeD)

lemma memory_inv_record:
  assumes "memory_inv mem"
  shows "memory_inv (record_move_result k mem u s r n ti)"
proof -
  have b: "\<forall>p \<in> set (get_bucket mem k). record_ok (snd p)"
    using assms unfolding memory_inv_def get_bucket_def by (cases "mem k") auto
  let ?e = "\<lparr>re_result = r, re_move_count = n, re_tactical_info = ti\<rparr>"
  let ?d = "get_record (get_bucket mem k) u s"
  let ?d3 = "update_statistics r n
     ((add_tactical ti ?d)\<lparr>results := results (add_tactical ti ?d) @ [?e]\<rparr>)"
  have d3: "record_ok ?d3"
    by (rule record_ok_step) (rule record_ok_get_record [OF b])
  have "\<forall>p \<in> set (dict_set u ?d3 (get_bucket mem k)). record_ok (snd p)"
    using set_dict_set [of u ?d3 "get_bucket mem k"] b d3 by auto
  then show ?thesis
    using assms by (auto simp: memory_inv_def record_move_result_def Let_def)
qed

lemma memory_inv_foldl:
  "memory_inv mem \<Longrightarrow> memory_inv (foldl apply_recording mem cs)"
  by (induction cs arbitrary: mem) (simp_all add: apply_recording_def memory_inv_record)

lemma memory_inv_empty: "memory_inv Map.empty"
  by (simp add: memory_inv_def)

text \<open>
  C7: in the memory reached from the empty one by any sequence of recordings, every
  record has \<open>wins + draws + losses\<close> equal to the length of its results list. One
  recording, in any memory, appends exactly its outcome entry to the record's results and
  adds one to exactly one counter: \<open>wins\<close> for \<open>WIN\<close>, \<open>draws\<close> for \<open>DRAW\<close>,
  \<open>losses\<close> for anything else. A record that was absent starts from zero counters and
  an empty results list.
\<close>

theorem record_move_result_counts:
  "memory_inv (foldl apply_recording Map.empty cs)
   \<and> (let d0 = get_record (get_bucket mem k) u s;
           mem' = record_move_result k mem u s r n ti
       in case map_of (get_bucket mem' k) u of
            None \<Rightarrow> False
          | Some d1 \<Rightarrow>
              results d1
                = results d0 @ [\<lparr>re_result = r, re_move_count = n, re_tactical_info = ti\<rparr>]
              \<and> wins d1 = wins d0 + (if r = ''WIN'' then 1 else 0)
              \<and> draws d1 = draws d0 + (if r = ''DRAW'' then 1 else 0)
              \<and> losses d1 = losses d0 + (if r \<noteq> ''WIN'' \<and> r \<noteq> ''DRAW'' then 1 else 0))
   \<and> (map_of (get_bucket mem k) u = None \<longrightarrow>
        wins (get_record (get_bucket mem k) u s) = 0
        \<and> draws (get_record (get_bucket mem k) u s) = 0
        \<and> losses (get_record (get_bucket mem k) u s) = 0
        \<and> results (get_record (get_bucket mem k) u s) = [])"
proof (intro conjI)
  show "memory_inv (foldl apply_recording Map.empty cs)"
    by (rule memory_inv_foldl) (rule memory_inv_empty)
next
  show "let d0 = get_record (get_bucket mem k) u s;
           mem' = record_move_result k mem u s r n ti
       in case map_of (get_bucket mem' k) u of
            None \<Rightarrow> False
          | Some d1 \<Rightarrow>
              results d1
                = results d0 @ [\<lparr>re_result = r, re_move_count = n, re_tactical_info = ti\<rparr>]
              \<and> wins d1 = wins d0 + (if r = ''WIN'' then 1 else 0)
              \<and> draws d1 = draws d0 + (if r = ''DRAW'' then 1 else 0)
              \<and> losses d1 = losses d0 + (if r \<noteq> ''WIN'' \<and> r \<noteq> ''DRAW'' then 1 else 0)"
    by (cases ti)
      (simp_all add: Let_def record_move_result_def get_bucket_def map_of_dict_set
        update_statistics_def add_tactical_def)
next
  show "map_of (get_bucket mem k) u = None \<longrightarrow>
        wins (get_record (get_bucket mem k) u s) = 0
        \<and> draws (get_record (get_bucket mem k) u s) = 0
        \<and> losses (get_record (get_bucket mem k) u s) = 0
        \<and> results (get_record (get_bucket mem k) u s) = []"
    by (simp add: get_record_def new_move_data_def)
qed

theorem record_move_result_counts_witness:
  "(case foldl apply_recording Map.empty demo_calls ''K'' of
      None \<Rightarrow> False
    | Some b \<Rightarrow>
        map (\<lambda>p. (fst p, wins (snd p), draws (snd p), losses (snd p), length (results (snd p)))) b
          = [(''e2e4'', 0, 1, 1, 2)])
   \<and> memory_inv (foldl apply_recording Map.empty demo_calls)
   \<and> map_of (get_bucket Map.empty ''K'') ''e2e4'' = None
   \<and> wins (get_record (get_bucket Map.empty ''K'') ''e2e4'' ''e4'') = 0"
proof -
  have "memory_inv (foldl apply_recording Map.empty demo_calls)"
    using record_move_result_counts
      [of demo_calls Map.empty "''K''" "''e2e4''" "''e4''" "''WIN''" 3 None]
    by (rule conjunct1)
  moreover have "case foldl apply_recording Map.empty demo_calls ''K'' of
      None \<Rightarrow> False
    | Some b \<Rightarrow>
        map (\<lambda>p. (fst p, wins (snd p), draws (snd p), losses (snd p), length (results (snd p)))) b
          = [(''e2e4'', 0, 1, 1, 2)]"
    by (simp add: demo_calls_def apply_recording_def record_move_result_def get_bucket_def
      get_record_def new_move_data_def add_tactical_def update_statistics_def demo_info_def
      min_inf_def Let_def)
  moreover have "map_of (get_bucket Map.empty ''K'') ''e2e4'' = None
     \<and> wins (get_record (get_bucket Map.empty ''K'') ''e2e4'' ''e4'') = 0"
    by (simp add: get_bucket_def get_record_def new_move_data_def)
  ultimately show ?thesis by blast
qed

section \<open>The best move from memory\<close>

text \<open>
  When the lookup does return a move, it is a move recorded for the key whose score is
  above \<open>-1\<close> and is the maximum of the scores recorded for the key.
\<close>

lemma best_move_loop_sound:
  assumes "best_move_loop b best_move best_score = Inr (Some (u, s, d))"
    and "case best_move of None \<Rightarrow> True | Some (u0, s0, d0) \<Rightarrow> get_move_score d0 = Inr best_score"
  shows "\<exists>sc. get_move_score d = Inr sc \<and> best_score \<le> sc
           \<and> (\<forall>p \<in> set b. \<exists>sc'. get_move_score (snd p) = Inr sc' \<and> sc' \<le> sc)
           \<and> (best_move = Some (u, s, d) \<or> ((u, d) \<in> set b \<and> s = san d \<and> best_score < sc))"
  using assms
proof (induction b best_move best_score rule: best_move_loop.induct)
  case (1 best_move best_score)
  then show ?case by auto
next
  case (2 move_uci d' rest best_move best_score)
  from "2.prems"(1) obtain score where sc: "get_move_score d' = Inr score"
    by (cases "get_move_score d'") auto
  show ?case
  proof (cases "score > best_score")
    case True
    with "2.prems"(1) sc
    have run: "best_move_loop rest (Some (move_uci, san d', d')) score = Inr (Some (u, s, d))"
      by simp
    from "2.IH"(1) [OF sc True run] sc
    obtain sc1 where "get_move_score d = Inr sc1" "score \<le> sc1"
      "\<forall>p \<in> set rest. \<exists>sc'. get_move_score (snd p) = Inr sc' \<and> sc' \<le> sc1"
      "Some (move_uci, san d', d') = Some (u, s, d) \<or> ((u, d) \<in> set rest \<and> s = san d \<and> score < sc1)"
      by auto
    with True sc show ?thesis by auto
  next
    case False
    with "2.prems"(1) sc
    have run: "best_move_loop rest best_move best_score = Inr (Some (u, s, d))"
      by simp
    from "2.IH"(2) [OF sc False run "2.prems"(2)]
    obtain sc1 where "get_move_score d = Inr sc1" "best_score \<le> sc1"
      "\<forall>p \<in> set rest. \<exists>sc'. get_move_score (snd p) = Inr sc' \<and> sc' \<le> sc1"
      "best_move = Some (u, s, d) \<or> ((u, d) \<in> set rest \<and> s = san d \<and> best_score < sc1)"
      by auto
    with False sc show ?thesis by auto
  qed
qed

lemma best_move_from_memory_sound:
  assumes "get_best_move_from_memory mem position_key = Inr (Some (u, s, d))"
  shows "\<exists>b sc. mem position_key = Some b \<and> (u, d) \<in> set b \<and> s = san d
           \<and> get_move_score d = Inr sc \<and> - 1 < sc
           \<and> (\<forall>p \<in> set b. \<exists>sc'. get_move_score (snd p) = Inr sc' \<and> sc' \<le> sc)"
proof -
  from assms obtain b where b: "mem position_key = Some b"
    and run: "best_move_loop b None (- 1) = Inr (Some (u, s, d))"
    by (auto simp: get_best_move_from_memory_def split: option.splits if_splits)
  from best_move_loop_sound [OF run] b show ?thesis by auto
qed

text \<open>
  C8 fails on the code: the running maximum starts at \<open>-1\<close>, so a bucket whose records
  all score \<open>-1\<close> or less yields no move although it has entries. The memory
  \<open>blunder_memory\<close> holds one record for its key, of score \<open>-1220/11\<close>, and the
  lookup returns \<open>None\<close>.
\<close>

theorem best_move_absent_with_entries:
  "get_bucket blunder_memory ''K'' = [(''d1b7'', blunder)]
   \<and> get_move_score blunder = Inr (- 1220 / 11)
   \<and> get_best_move_from_memory blunder_memory ''K'' = Inr None"
  by (simp add: blunder_memory_def get_bucket_def get_best_move_from_memory_def blunder_def
      get_move_score_def capture_bonus_def material_bonus_def)

section \<open>The outcome simulator\<close>

lemma sim_loop_count:
  "sim_loop R E paw max_depth b mc ti = (fb, mc', ti')
   \<Longrightarrow> mc \<le> mc' \<and> (int mc \<le> max_depth \<longrightarrow> int mc' \<le> max_depth)"
proof (induction R E paw max_depth b mc ti rule: sim_loop.induct)
  case (1 R E paw max_depth b mc ti)
  show ?case
  proof (cases "\<not> is_game_over R b \<and> int mc < max_depth")
    case False
    with "1.prems" show ?thesis by auto
  next
    case True
    show ?thesis
    proof (cases "sim_turn R E paw b mc ti")
      case None
      with True "1.prems" show ?thesis by auto
    next
      case (Some p)
      obtain b1 ti1 where p: "p = (b1, ti1)" by (cases p)
      from True Some p "1.prems"
      have "sim_loop R E paw max_depth b1 (mc + 1) ti1 = (fb, mc', ti')" by simp
      from "1.IH" [OF True Some [unfolded p] refl this] True
      show ?thesis by auto
    qed
  qed
qed

text \<open>
  C10: the simulation is a total function (its loop is defined with a termination proof,
  the measure being the distance of the ply count to the cap), for every rules engine,
  opponent engine (also one whose every call fails) and random source; with a depth cap
  of at least 1 the ply count it returns is between 1 and the cap.
\<close>

theorem simulate_ply_count:
  assumes "1 \<le> max_depth"
  shows "case simulate_tactical_game R E play_as_white max_depth board first_move of
           (res, move_count, ti) \<Rightarrow> 1 \<le> move_count \<and> int move_count \<le> max_depth"
proof -
  obtain fb mc ti where l:
    "sim_loop R E play_as_white max_depth (push R board first_move) 1 empty_tactical_info
       = (fb, mc, ti)"
    by (cases "sim_loop R E play_as_white max_depth (push R board first_move) 1
                 empty_tactical_info")
  from sim_loop_count [OF l] assms have "1 \<le> mc \<and> int mc \<le> max_depth" by simp
  with l show ?thesis by (simp add: simulate_tactical_game_def Let_def)
qed

theorem simulate_ply_count_witness:
  "(1 :: int) \<le> 3
   \<and> simulate_tactical_game kr_rules failing_engine_env True 3 kr_root (40, 46)
       = (''DRAW'', 3, empty_tactical_info)
   \<and> (1 :: nat) \<le> 3 \<and> int 3 \<le> 3"
proof -
  have h: "(1 :: int) \<le> 3" by simp
  have e: "simulate_tactical_game kr_rules failing_engine_env True 3 kr_root (40, 46)
       = (''DRAW'', 3, empty_tactical_info)"
    by code_simp
  from simulate_ply_count [OF h, of kr_rules failing_engine_env True kr_root "(40, 46)"] e
  have "(1 :: nat) \<le> 3 \<and> int 3 \<le> 3" by simp
  with h e show ?thesis by blast
qed

text \<open>
  C3: the outcome against the final position of the simulated game. It is \<open>WIN\<close> when
  the position is checkmate and the side that is not to move (the mating side) is the
  learner's colour, \<open>LOSS\<close> when it is checkmate and the mating side is the other
  colour; a position that is not checkmate gives \<open>DRAW\<close>, whether it is a stalemate,
  insufficient material, a fifty-move or a repetition draw, or an open game stopped by
  the depth cap. \<open>LOSS\<close> is returned only when the learner's colour is to move and
  checkmated.
\<close>

theorem simulate_outcome:
  "let final_board = sim_final_board R E play_as_white max_depth board first_move;
       res = fst (simulate_tactical_game R E play_as_white max_depth board first_move)
   in (is_checkmate R final_board \<and> (\<not> turn R final_board) = play_as_white \<longrightarrow> res = ''WIN'')
    \<and> (is_checkmate R final_board \<and> (\<not> turn R final_board) \<noteq> play_as_white \<longrightarrow> res = ''LOSS'')
    \<and> (\<not> is_checkmate R final_board
         \<and> (is_stalemate R final_board \<or> is_insufficient_material R final_board
            \<or> is_fifty_moves R final_board \<or> is_repetition R final_board) \<longrightarrow> res = ''DRAW'')
    \<and> (\<not> is_checkmate R final_board \<longrightarrow> res = ''DRAW'')
    \<and> (res = ''LOSS'' \<longrightarrow> is_checkmate R final_board \<and> turn R final_board = play_as_white)
    \<and> (res = ''WIN'' \<or> res = ''LOSS'' \<or> res = ''DRAW'')"
  by (cases "sim_loop R E play_as_white max_depth (push R board first_move) 1 empty_tactical_info")
    (auto simp: simulate_tactical_game_def sim_final_board_def determine_result_def Let_def)

theorem simulate_outcome_witness:
  "is_checkmate kr_rules (sim_final_board kr_rules failing_engine_env True 5 kr_mate (7, 0))
   \<and> (\<not> turn kr_rules (sim_final_board kr_rules failing_engine_env True 5 kr_mate (7, 0))) = True
   \<and> fst (simulate_tactical_game kr_rules failing_engine_env True 5 kr_mate (7, 0)) = ''WIN''
   \<and> fst (simulate_tactical_game kr_rules failing_engine_env False 5 kr_mate (7, 0)) = ''LOSS''
   \<and> \<not> is_checkmate kr_rules (sim_final_board kr_rules failing_engine_env True 3 kr_root (40, 46))
   \<and> fst (simulate_tactical_game kr_rules failing_engine_env True 3 kr_root (40, 46)) = ''DRAW''"
proof -
  have a: "is_checkmate kr_rules (sim_final_board kr_rules failing_engine_env True 5 kr_mate (7, 0))"
    by code_simp
  have a': "is_checkmate kr_rules (sim_final_board kr_rules failing_engine_env False 5 kr_mate (7, 0))"
    by code_simp
  have b: "(\<not> turn kr_rules (sim_final_board kr_rules failing_engine_env True 5 kr_mate (7, 0))) = True"
    by code_simp
  have b': "(\<not> turn kr_rules (sim_final_board kr_rules failing_engine_env False 5 kr_mate (7, 0))) \<noteq> False"
    by code_simp
  have c: "\<not> is_checkmate kr_rules (sim_final_board kr_rules failing_engine_env True 3 kr_root (40, 46))"
    by code_simp
  from simulate_outcome [of kr_rules failing_engine_env True 5 kr_mate "(7, 0)"] a b
  have w: "fst (simulate_tactical_game kr_rules failing_engine_env True 5 kr_mate (7, 0)) = ''WIN''"
    unfolding Let_def by blast
  from simulate_outcome [of kr_rules failing_engine_env False 5 kr_mate "(7, 0)"] a' b'
  have l: "fst (simulate_tactical_game kr_rules failing_engine_env False 5 kr_mate (7, 0)) = ''LOSS''"
    unfolding Let_def by blast
  from simulate_outcome [of kr_rules failing_engine_env True 3 kr_root "(40, 46)"] c
  have d: "fst (simulate_tactical_game kr_rules failing_engine_env True 3 kr_root (40, 46)) = ''DRAW''"
    unfolding Let_def by blast
  from a b c w l d show ?thesis by blast
qed

section \<open>Ranking attack sequences\<close>

lemma PIECE_VALUES_cases: "PIECE_VALUES pt \<in> {0, 100, 320, 330, 500, 900}"
  by (cases pt) simp_all

lemma captured_value_cases:
  "get_captured_piece_value R board m \<in> {0, 100, 320, 330, 500, 900}"
  using PIECE_VALUES_cases
  by (auto simp: get_captured_piece_value_def split: option.splits)

lemma attack_entries_ok: "s \<in> set (attack_entries R board m) \<Longrightarrow> entry_ok s"
  using captured_value_cases [of R board m]
  by (auto simp: attack_entries_def entry_ok_def sequence_priority_def Let_def is_capture_move_def
      split: if_splits)

lemma attack_candidates_ok: "s \<in> set (attack_candidates R board) \<Longrightarrow> entry_ok s"
  by (auto simp: attack_candidates_def attack_entries_ok)

lemma sort_reverse_set: "set (sort_reverse key xs) = set xs"
  by (simp add: sort_reverse_def)

lemma sort_reverse_nth:
  fixes key :: "'a \<Rightarrow> int"
  assumes "i < j" and "j < length (sort_reverse key xs)"
  shows "key (sort_reverse key xs ! j) \<le> key (sort_reverse key xs ! i)"
proof -
  have "sorted (map (\<lambda>x. - key x) (sort_reverse key xs))"
    by (simp add: sort_reverse_def)
  from sorted_nth_mono [OF this, of i j] assms show ?thesis by simp
qed

lemma sort_reverse_stable:
  fixes key :: "'a \<Rightarrow> int"
  shows "filter (\<lambda>x. key x = k) (sort_reverse key xs) = filter (\<lambda>x. key x = k) xs"
proof -
  have "filter (\<lambda>x. - key x = - k) (sort_key (\<lambda>x. - key x) xs) = filter (\<lambda>x. - key x = - k) xs"
    by (rule sort_key_stable)
  then show ?thesis by (simp add: sort_reverse_def)
qed

text \<open>
  C4: in the list returned by \<open>calculate_attack_sequences\<close>, priorities never
  increase; no check entry stands before a checkmate entry and no capture entry before a
  check or checkmate entry; entries of equal priority keep their order of generation;
  and every entry is a checkmate of priority 10000, a check of priority 5000 plus its
  material (a piece value or 0), or a capture whose priority is its material (a positive
  piece value).
\<close>

theorem attack_ranking_order:
  "let seqs = calculate_attack_sequences R board in
     (\<forall>i j. i < j \<and> j < length seqs \<longrightarrow>
        sequence_priority (seqs ! j) \<le> sequence_priority (seqs ! i)
        \<and> \<not> (result (seqs ! i) = ''check'' \<and> result (seqs ! j) = ''checkmate'')
        \<and> \<not> (result (seqs ! i) = ''capture''
               \<and> (result (seqs ! j) = ''check'' \<or> result (seqs ! j) = ''checkmate'')))
     \<and> (\<forall>k. filter (\<lambda>s. sequence_priority s = k) seqs
              = filter (\<lambda>s. sequence_priority s = k) (attack_candidates R board))
     \<and> (\<forall>s \<in> set seqs. entry_ok s)"
proof -
  let ?seqs = "calculate_attack_sequences R board"
  have ok: "entry_ok s" if "s \<in> set ?seqs" for s
    using that by (simp add: calculate_attack_sequences_def sort_reverse_set attack_candidates_ok)
  have order: "sequence_priority (?seqs ! j) \<le> sequence_priority (?seqs ! i)
        \<and> \<not> (result (?seqs ! i) = ''check'' \<and> result (?seqs ! j) = ''checkmate'')
        \<and> \<not> (result (?seqs ! i) = ''capture''
               \<and> (result (?seqs ! j) = ''check'' \<or> result (?seqs ! j) = ''checkmate''))"
    if ij: "i < j" "j < length ?seqs" for i j
  proof -
    have le: "sequence_priority (?seqs ! j) \<le> sequence_priority (?seqs ! i)"
      using ij unfolding calculate_attack_sequences_def by (rule sort_reverse_nth)
    have oi: "entry_ok (?seqs ! i)" using ij by (intro ok nth_mem) simp
    have oj: "entry_ok (?seqs ! j)" using ij by (intro ok nth_mem) simp
    from le oi oj show ?thesis
      by (auto simp: entry_ok_def)
  qed
  have stable: "filter (\<lambda>s. sequence_priority s = k) ?seqs
              = filter (\<lambda>s. sequence_priority s = k) (attack_candidates R board)" for k
    unfolding calculate_attack_sequences_def by (rule sort_reverse_stable)
  from ok order stable show ?thesis unfolding Let_def by blast
qed

theorem attack_ranking_order_witness:
  "map (\<lambda>s. (moves s, result s, sequence_priority s)) (attack_candidates kr_rules kr_mate)
     = [([(7, 63)], ''capture'', 500), ([(7, 0)], ''checkmate'', 10000)]
   \<and> map (\<lambda>s. (moves s, result s, sequence_priority s)) (calculate_attack_sequences kr_rules kr_mate)
     = [([(7, 0)], ''checkmate'', 10000), ([(7, 63)], ''capture'', 500)]
   \<and> (0 :: nat) < 1 \<and> 1 < length (calculate_attack_sequences kr_rules kr_mate)
   \<and> sequence_priority (calculate_attack_sequences kr_rules kr_mate ! 1)
        \<le> sequence_priority (calculate_attack_sequences kr_rules kr_mate ! 0)"
proof -
  have c: "map (\<lambda>s. (moves s, result s, sequence_priority s)) (attack_candidates kr_rules kr_mate)
     = [([(7, 63)], ''capture'', 500), ([(7, 0)], ''checkmate'', 10000)]"
    by code_simp
  have e: "map (\<lambda>s. (moves s, result s, sequence_priority s))
             (calculate_attack_sequences kr_rules kr_mate)
     = [([(7, 0)], ''checkmate'', 10000), ([(7, 63)], ''capture'', 500)]"
    by code_simp
  have "length (map (\<lambda>s. (moves s, result s, sequence_priority s))
             (calculate_attack_sequences kr_rules kr_mate)) = 2"
    unfolding e by simp
  then have l: "(0 :: nat) < 1 \<and> 1 < length (calculate_attack_sequences kr_rules kr_mate)"
    by simp
  from attack_ranking_order [of kr_rules kr_mate] l
  have "sequence_priority (calculate_attack_sequences kr_rules kr_mate ! 1)
        \<le> sequence_priority (calculate_attack_sequences kr_rules kr_mate ! 0)"
    unfolding Let_def by blast
  with c e l show ?thesis by blast
qed

section \<open>Entries per move in the attack ranking\<close>

lemma attack_entries_moves: "s \<in> set (attack_entries R board m) \<Longrightarrow> moves s = [m]"
  by (auto simp: attack_entries_def Let_def split: if_splits)

lemma filter_attack_entries:
  "filter (\<lambda>s. moves s = [m]) (attack_entries R board m')
     = (if m' = m then attack_entries R board m' else [])"
  by (auto simp: filter_empty_conv filter_id_conv dest: attack_entries_moves)

lemma filter_attack_candidates:
  "distinct ms \<Longrightarrow>
   filter (\<lambda>s. moves s = [m]) (concat (map (attack_entries R board) ms))
     = (if m \<in> set ms then attack_entries R board m else [])"
  by (induction ms) (auto simp: filter_attack_entries)

lemma sort_reverse_filter:
  "filter P (sort_reverse key xs) = sort_reverse key (filter P xs)"
  by (simp add: sort_reverse_def filter_sort)

lemma sort_reverse_attack_entries:
  "sort_reverse sequence_priority (attack_entries R board m) = attack_entries R board m"
  by (simp add: attack_entries_def sort_reverse_def sequence_priority_def Let_def)

text \<open>
  C5, as stated, fails: only the checkmate branch of the loop skips the later tests. In
  \<open>kr_root\<close> the move Rxg6+ is listed twice, as a check and as a capture.
\<close>

theorem attack_entries_counterexample:
  "(40, 46) \<in> set (legal_moves kr_rules kr_root)
   \<and> map result (filter (\<lambda>s. moves s = [(40, 46)]) (calculate_attack_sequences kr_rules kr_root))
       = [''check'', ''capture'']
   \<and> \<not> length (filter (\<lambda>s. moves s = [(40, 46)]) (calculate_attack_sequences kr_rules kr_root)) \<le> 1"
  by code_simp

text \<open>
  C5, amended: the legal moves being distinct, a legal move contributes at most two
  entries to the returned list: exactly one, a checkmate entry, if it mates; otherwise a
  check entry if it gives check, followed by a capture entry if it is a capture of
  positive value, so a capturing check contributes both; a move matching none of the
  three contributes nothing.
\<close>

theorem attack_entries_per_move:
  assumes "distinct (legal_moves R board)" and "m \<in> set (legal_moves R board)"
  shows "let es = filter (\<lambda>s. moves s = [m]) (calculate_attack_sequences R board);
             test_board = push R board m;
             gain = get_captured_piece_value R board m
         in length es \<le> 2
          \<and> (is_checkmate R test_board \<longrightarrow> map result es = [''checkmate''])
          \<and> (\<not> is_checkmate R test_board \<longrightarrow>
               map result es
                 = (if is_check R test_board then [''check''] else [])
                   @ (if is_capture R board m \<and> gain > 0 then [''capture''] else []))"
proof -
  have "filter (\<lambda>s. moves s = [m]) (calculate_attack_sequences R board)
          = attack_entries R board m"
    using assms
    by (simp add: calculate_attack_sequences_def sort_reverse_filter attack_candidates_def
        filter_attack_candidates sort_reverse_attack_entries)
  then show ?thesis
    by (simp add: Let_def attack_entries_def is_capture_move_def)
qed

theorem attack_entries_per_move_witness:
  "distinct (legal_moves kr_rules kr_root) \<and> (40, 46) \<in> set (legal_moves kr_rules kr_root)
   \<and> \<not> is_checkmate kr_rules (push kr_rules kr_root (40, 46))
   \<and> is_check kr_rules (push kr_rules kr_root (40, 46))
   \<and> is_capture kr_rules kr_root (40, 46)
   \<and> get_captured_piece_value kr_rules kr_root (40, 46) = 500
   \<and> map result (filter (\<lambda>s. moves s = [(40, 46)]) (calculate_attack_sequences kr_rules kr_root))
       = [''check'', ''capture'']"
proof -
  have d: "distinct (legal_moves kr_rules kr_root)" by code_simp
  have m: "(40, 46) \<in> set (legal_moves kr_rules kr_root)" by code_simp
  have n: "\<not> is_checkmate kr_rules (push kr_rules kr_root (40, 46))" by code_simp
  have c: "is_check kr_rules (push kr_rules kr_root (40, 46))" by code_simp
  have p: "is_capture kr_rules kr_root (40, 46)" by code_simp
  have g: "get_captured_piece_value kr_rules kr_root (40, 46) = 500" by code_simp
  from attack_entries_per_move [OF d m] n c p g
  have "map result (filter (\<lambda>s. moves s = [(40, 46)]) (calculate_attack_sequences kr_rules kr_root))
       = [''check'', ''capture'']"
    by (simp add: Let_def)
  with d m n c p g show ?thesis by blast
qed

section \<open>Ranking defense sequences\<close>

text \<open>
  The component \<open>removes_check\<close> is computed from \<open>test_board.is_check()\<close>, which
  asks whether the side to move after the move, the opponent, is in check.
\<close>

lemma defense_entry_removes_check:
  "removes_check (defense_entry R play_as_white board m)
     = (is_check R board \<and> \<not> is_check R (push R board m))"
  by (simp add: defense_entry_def Let_def)

text \<open>
  C6 fails on the code. In \<open>kr_root\<close> White is to move and in check; its five legal
  moves all leave the white king out of check, but the capture Rxg6+, which gives check
  itself, is marked as not removing the check and ranks last, without the bonus of
  10000.
\<close>

theorem defense_removes_check_missed:
  "turn kr_rules kr_root = True \<and> is_check kr_rules kr_root
   \<and> map (uci kr_rules) (legal_moves kr_rules kr_root)
       = [''g1h1'', ''g1f1'', ''g1h2'', ''g1f2'', ''a6g6'']
   \<and> map (\<lambda>m. kr_in_check (push kr_rules kr_root m) True) (legal_moves kr_rules kr_root)
       = [False, False, False, False, False]
   \<and> map (\<lambda>d. (uci kr_rules (move d), removes_check d, defense_priority d))
       (calculate_defense_sequences kr_rules True kr_root)
       = [(''g1h1'', True, 11000), (''g1f1'', True, 11000), (''g1h2'', True, 11000),
          (''g1f2'', True, 11000), (''a6g6'', False, 1500)]"
  by code_simp

section \<open>The move search loop\<close>

text \<open>
  When the best move of the memory has no win and is not kept as a draw candidate,
  \<open>best_draw\<close> is never assigned: the search can then only end with a win or with an
  exception, never with a report of failure or a draw candidate.
\<close>

lemma return_best_unbound: "return_best Unbound mem = Inl UnboundLocalError"
  by (simp add: return_best_def)

lemma track_best_draw_unbound: "track_best_draw mem k u s Unbound = Inl UnboundLocalError"
  by (simp add: track_best_draw_def)

lemma search_loop_unbound:
  "bd = Unbound \<Longrightarrow>
   search_loop R E paw max_depth board k max_strength attempts pm bd mem = Inr (r, mem')
   \<Longrightarrow> r \<noteq> None"
proof (induction R E paw max_depth board k max_strength attempts pm bd mem
    rule: search_loop.induct)
  case (1 R E paw max_depth board k max_strength attempts pm bd mem)
  note bd = \<open>bd = Unbound\<close>
  note run = \<open>search_loop R E paw max_depth board k max_strength attempts pm bd mem = Inr (r, mem')\<close>
  show ?case
  proof (cases "int attempts < max_strength")
    case False
    with run [unfolded bd] show ?thesis by (simp add: return_best_unbound)
  next
    case True
    note lt = True
    show ?thesis
    proof (cases "choose_move R (pick E (attempts + 1)) board mem k pm")
      case (Inl e)
      with lt run [unfolded bd] show ?thesis by simp
    next
      case (Inr c)
      show ?thesis
      proof (cases c)
        case None
        with lt Inr run [unfolded bd] show ?thesis by (simp add: return_best_unbound)
      next
        case (Some mp)
        obtain m pm' where mp: "mp = (m, pm')" by (cases mp)
        obtain res mc ti where sim:
          "simulate_tactical_game R (sim_envs E (attempts + 1)) paw max_depth board m = (res, mc, ti)"
          by (cases "simulate_tactical_game R (sim_envs E (attempts + 1)) paw max_depth board m")
        show ?thesis
        proof (cases "res = ''WIN''")
          case True
          with lt Inr Some mp sim run [unfolded bd] show ?thesis by (auto simp: Let_def)
        next
          case False
          note nw = False
          show ?thesis
          proof (cases "res = ''DRAW''")
            case True
            with lt Inr Some mp sim nw run [unfolded bd] show ?thesis
              by (simp add: Let_def track_best_draw_unbound)
          next
            case False
            with lt Inr Some mp sim nw run [unfolded bd]
            have "search_loop R E paw max_depth board k max_strength (attempts + 1) pm' bd
                    (record_move_result k mem (uci R m) (board_san R board m) res mc (Some ti))
                  = Inr (r, mem')"
              by (simp add: Let_def bd)
            from "1.IH"(2) [OF lt Inr Some mp [symmetric] refl refl sim [symmetric] refl refl nw False bd this]
            show ?thesis .
          qed
        qed
      qed
    qed
  qed
qed


lemma check_memory_unbound:
  "wins d = 0 \<Longrightarrow> draws d = 0 \<Longrightarrow> check_memory strategy (Some (u, s, d)) = Inr Unbound"
  by (simp add: check_memory_def)

lemma find_winning_move_no_failure_report:
  assumes "get_best_move_from_memory mem (get_position_key R paw board) = Inr (Some (u, s, d))"
    and "wins d = 0" and "draws d = 0"
  shows "find_winning_move R E paw max_depth board mem max_strength \<noteq> Inr (None, mem')
     \<and> (max_strength \<le> 0 \<longrightarrow>
          find_winning_move R E paw max_depth board mem max_strength = Inl UnboundLocalError)"
proof -
  have run: "find_winning_move R E paw max_depth board mem max_strength
      = search_loop R E paw max_depth board (get_position_key R paw board) max_strength 0
          (priority_moves_of (analyze_position_before_move R paw board)) Unbound mem"
    using assms by (simp add: find_winning_move_def Let_def check_memory_unbound)
  have "search_loop R E paw max_depth board (get_position_key R paw board) max_strength 0
          (priority_moves_of (analyze_position_before_move R paw board)) Unbound mem
        \<noteq> Inr (None, mem')"
  proof
    assume "search_loop R E paw max_depth board (get_position_key R paw board) max_strength 0
          (priority_moves_of (analyze_position_before_move R paw board)) Unbound mem
        = Inr (None, mem')"
    from search_loop_unbound [OF refl this] show False by simp
  qed
  moreover have "max_strength \<le> 0 \<longrightarrow>
      search_loop R E paw max_depth board (get_position_key R paw board) max_strength 0
          (priority_moves_of (analyze_position_before_move R paw board)) Unbound mem
        = Inl UnboundLocalError"
    by (simp add: return_best_unbound)
  ultimately show ?thesis unfolding run by blast
qed

text \<open>
  C2 fails on the code. From \<open>kr_root\<close>, White in check, with a depth cap of 3 plies
  and a budget of one attempt: the first search, on an empty memory, tests Kh1, draws at
  the cap and returns it. The second search, on the memory the first one left, finds Kh1
  there without a win while the king is in danger, goes on searching with \<open>best_draw\<close>
  unassigned and raises \<open>UnboundLocalError\<close> at its first drawn game; with a budget
  of 0 it raises after the loop.
\<close>

theorem find_winning_move_unbound:
  "(case find_winning_move kr_rules kr_search_env True 3 kr_root Map.empty 1 of
      Inl e \<Rightarrow> False
    | Inr (r, mem1) \<Rightarrow>
        r = Some ''Kh1''
        \<and> map (\<lambda>p. (fst p, wins (snd p), draws (snd p), losses (snd p)))
             (get_bucket mem1 (get_position_key kr_rules True kr_root))
            = [(''g1h1'', 0, 1, 0)]
        \<and> search_outcome (find_winning_move kr_rules kr_search_env True 3 kr_root mem1 1)
            = Inl UnboundLocalError
        \<and> search_outcome (find_winning_move kr_rules kr_search_env True 3 kr_root mem1 0)
            = Inl UnboundLocalError)"
  by code_simp

end
